theory Spec2Isabelle
  imports Main
begin

section \<open>Portfolio page script: data model\<close>

text \<open>
  The script \<^verbatim>\<open>src/script/script.js\<close> reads and mutates the DOM. The model keeps the
  parts of the DOM the script touches as records, threads them through every method as
  explicit state, and returns a thrown exception as a value beside the state reached when
  it was thrown (a JavaScript exception does not undo the mutations made before it).

  Pixel quantities (\<^verbatim>\<open>offsetTop\<close>, \<^verbatim>\<open>offsetHeight\<close>, \<^verbatim>\<open>scrollY\<close>) are integers. A JavaScript
  value that is a string or \<^verbatim>\<open>null\<close> (the result of \<^verbatim>\<open>getAttribute\<close>) is a \<open>string option\<close>,
  so that \<^verbatim>\<open>===\<close> on such values is equality of options. A string is a list of code
  units; only code units below 256 are representable.
\<close>

datatype error = TypeError

text \<open>The fields of \<^verbatim>\<open>CONFIG\<close> that the modelled methods read.\<close>

definition navOffset :: int where
  "navOffset = 80"

definition scrollThrottle :: int where
  "scrollThrottle = 16"

text \<open>An element of \<^verbatim>\<open>elements.sections\<close>: its offsets and its \<^verbatim>\<open>id\<close> attribute.\<close>

record page_section =
  offsetTop :: int
  offsetHeight :: int
  sectionId :: "string option"

text \<open>
  An element of \<^verbatim>\<open>elements.navLinks\<close>: its \<^verbatim>\<open>href\<close> attribute and whether its class list
  holds \<^verbatim>\<open>active\<close>.
\<close>

record nav_link =
  href :: "string option"
  active :: bool

text \<open>
  The state the scroll handler works on: \<^verbatim>\<open>window.scrollY\<close>, \<^verbatim>\<open>elements.nav\<close> (\<open>None\<close> when
  the page has no element with id \<^verbatim>\<open>nav\<close>, otherwise its \<^verbatim>\<open>style.background\<close>), the two node
  lists in document order, and \<^verbatim>\<open>this.currentSection\<close>.
\<close>

record app =
  scrollY :: int
  nav :: "string option"
  navLinks :: "nav_link list"
  sections :: "page_section list"
  currentSection :: "string option"

section \<open>Active-section tracker\<close>

text \<open>\<^verbatim>\<open>href.substring(1)\<close> of a link, when the link has an \<^verbatim>\<open>href\<close>.\<close>

definition fragment :: "nav_link \<Rightarrow> string option" where
  "fragment l = map_option (drop 1) (href l)"

text \<open>
  \<^verbatim>\<open>updateNavLinks(activeId)\<close>: the \<^verbatim>\<open>forEach\<close> over the links. \<^verbatim>\<open>getAttribute('href')\<close> is
  \<^verbatim>\<open>null\<close> on a link without the attribute, and \<^verbatim>\<open>null.substring\<close> throws; the links before
  it have been toggled by then.
\<close>

fun updateNavLinks_each :: "string option \<Rightarrow> nav_link list \<Rightarrow> error option \<times> nav_link list" where
  "updateNavLinks_each activeId [] = (None, [])"
| "updateNavLinks_each activeId (link # links) =
     (case href link of
        None \<Rightarrow> (Some TypeError, link # links)
      | Some h \<Rightarrow>
          (case updateNavLinks_each activeId links of
             (e, links') \<Rightarrow> (e, link\<lparr>active := (Some (drop 1 h) = activeId)\<rparr> # links')))"

definition updateNavLinks :: "string option \<Rightarrow> app \<Rightarrow> error option \<times> app" where
  "updateNavLinks activeId st =
     (case updateNavLinks_each activeId (navLinks st) of
        (e, links') \<Rightarrow> (e, st\<lparr>navLinks := links'\<rparr>))"

text \<open>The range test of \<^verbatim>\<open>updateActiveNavigation\<close>.\<close>

definition in_section :: "int \<Rightarrow> page_section \<Rightarrow> bool" where
  "in_section scrollPosition s \<longleftrightarrow>
     scrollPosition \<ge> offsetTop s \<and> scrollPosition < offsetTop s + offsetHeight s"

text \<open>
  The \<^verbatim>\<open>forEach\<close> over the sections. It has no early exit: every section whose range holds
  the position is compared with \<^verbatim>\<open>this.currentSection\<close> in turn.
\<close>

fun updateActiveNavigation_each :: "int \<Rightarrow> page_section list \<Rightarrow> app \<Rightarrow> error option \<times> app" where
  "updateActiveNavigation_each scrollPosition [] st = (None, st)"
| "updateActiveNavigation_each scrollPosition (s # ss) st =
     (if in_section scrollPosition s then
        (if currentSection st \<noteq> sectionId s then
           (case updateNavLinks (sectionId s) (st\<lparr>currentSection := sectionId s\<rparr>) of
              (Some e, st') \<Rightarrow> (Some e, st')
            | (None, st') \<Rightarrow> updateActiveNavigation_each scrollPosition ss st')
         else updateActiveNavigation_each scrollPosition ss st)
      else updateActiveNavigation_each scrollPosition ss st)"

definition updateActiveNavigation :: "app \<Rightarrow> error option \<times> app" where
  "updateActiveNavigation st =
     updateActiveNavigation_each (scrollY st + navOffset) (sections st) st"

text \<open>
  \<^verbatim>\<open>updateNavbarBackground\<close> writes \<^verbatim>\<open>elements.nav.style.background\<close> with no test that
  \<^verbatim>\<open>elements.nav\<close> is there.
\<close>

definition updateNavbarBackground :: "app \<Rightarrow> error option \<times> app" where
  "updateNavbarBackground st =
     (case nav st of
        None \<Rightarrow> (Some TypeError, st)
      | Some _ \<Rightarrow>
          (None, st\<lparr>nav := Some (if scrollY st > 50 then ''rgba(11, 11, 12, 0.95)''
                                   else ''rgba(11, 11, 12, 0.9)'')\<rparr>))"

definition handleScroll :: "app \<Rightarrow> error option \<times> app" where
  "handleScroll st =
     (case updateActiveNavigation st of
        (Some e, st') \<Rightarrow> (Some e, st')
      | (None, st') \<Rightarrow> updateNavbarBackground st')"

text \<open>A scroll event: the browser has moved \<^verbatim>\<open>window.scrollY\<close> to \<open>y\<close>, then the handler runs.\<close>

definition on_scroll :: "int \<Rightarrow> app \<Rightarrow> error option \<times> app" where
  "on_scroll y st = handleScroll (st\<lparr>scrollY := y\<rparr>)"

definition has_href :: "nav_link \<Rightarrow> bool" where
  "has_href l \<longleftrightarrow> href l \<noteq> None"

text \<open>What \<^verbatim>\<open>updateNavLinks\<close> leaves when every link has an \<^verbatim>\<open>href\<close>.\<close>

definition highlight :: "string option \<Rightarrow> nav_link list \<Rightarrow> nav_link list" where
  "highlight activeId links = map (\<lambda>l. l\<lparr>active := (fragment l = activeId)\<rparr>) links"

text \<open>
  The states the page can be in between two events: \<^verbatim>\<open>currentSection\<close> still has the
  constructor's value \<^verbatim>\<open>''\<close>, or the links show \<^verbatim>\<open>currentSection\<close>.
\<close>

definition tracker_inv :: "app \<Rightarrow> bool" where
  "tracker_inv st \<longleftrightarrow>
     currentSection st = Some [] \<or>
     list_all (\<lambda>l. active l = (fragment l = currentSection st)) (navLinks st)"

section \<open>Field validator\<close>

text \<open>
  A form field: \<^verbatim>\<open>field.type\<close>, \<^verbatim>\<open>field.value\<close>, whether it has the \<^verbatim>\<open>required\<close> attribute,
  whether its class list holds \<^verbatim>\<open>error\<close>, and the text of the \<^verbatim>\<open>.error-message\<close> element
  of its parent node (\<open>None\<close> when there is none). Each field is taken to have a parent of
  its own.
\<close>

record form_field =
  field_type :: string
  field_value :: string
  required :: bool
  error_class :: bool
  error_message :: "string option"

text \<open>
  The code units below 256 that \<^verbatim>\<open>String.prototype.trim\<close> strips and that \<^verbatim>\<open>\s\<close> matches:
  tab, line feed, vertical tab, form feed, carriage return, space, no-break space.
\<close>

definition js_whitespace :: "char \<Rightarrow> bool" where
  "js_whitespace c \<longleftrightarrow>
     c \<in> set [CHR 0x09, CHR 0x0A, CHR 0x0B, CHR 0x0C, CHR 0x0D, CHR 0x20, CHR 0xA0]"

definition trim :: "string \<Rightarrow> string" where
  "trim s = rev (dropWhile js_whitespace (rev (dropWhile js_whitespace s)))"

text \<open>
  Regular expressions without captures, and \<^verbatim>\<open>test\<close> on a pattern anchored at both ends,
  by derivatives: \<open>after c r\<close> matches what \<open>r\<close> matches after reading \<open>c\<close>.
\<close>

datatype regex =
  Never
  | Empty
  | Char_class "char \<Rightarrow> bool"
  | Concat regex regex
  | Either regex regex
  | Repeat regex

fun accepts_empty :: "regex \<Rightarrow> bool" where
  "accepts_empty Never = False"
| "accepts_empty Empty = True"
| "accepts_empty (Char_class P) = False"
| "accepts_empty (Concat r q) = (accepts_empty r \<and> accepts_empty q)"
| "accepts_empty (Either r q) = (accepts_empty r \<or> accepts_empty q)"
| "accepts_empty (Repeat r) = True"

fun after :: "char \<Rightarrow> regex \<Rightarrow> regex" where
  "after c Never = Never"
| "after c Empty = Never"
| "after c (Char_class P) = (if P c then Empty else Never)"
| "after c (Concat r q) =
     (if accepts_empty r then Either (Concat (after c r) q) (after c q)
      else Concat (after c r) q)"
| "after c (Either r q) = Either (after c r) (after c q)"
| "after c (Repeat r) = Concat (after c r) (Repeat r)"

fun regex_test :: "regex \<Rightarrow> string \<Rightarrow> bool" where
  "regex_test r [] = accepts_empty r"
| "regex_test r (c # cs) = regex_test (after c r) cs"

definition one_or_more :: "regex \<Rightarrow> regex" where
  "one_or_more r = Concat r (Repeat r)"

text \<open>The class \<^verbatim>\<open>[^\s@]\<close>.\<close>

definition not_space_at :: "char \<Rightarrow> bool" where
  "not_space_at c \<longleftrightarrow> \<not> js_whitespace c \<and> c \<noteq> CHR ''@''"

text \<open>\<^verbatim>\<open>/^[^\s@]+@[^\s@]+\.[^\s@]+$/\<close>\<close>

definition emailRegex :: regex where
  "emailRegex =
     Concat (one_or_more (Char_class not_space_at))
       (Concat (Char_class (\<lambda>c. c = CHR ''@''))
          (Concat (one_or_more (Char_class not_space_at))
             (Concat (Char_class (\<lambda>c. c = CHR ''.''))
                (one_or_more (Char_class not_space_at)))))"

text \<open>The three messages; the accented letters are given by their code units.\<close>

definition msg_email :: string where
  "msg_email = ''Por favor, insira um e-mail v'' @ [CHR 0xE1] @ ''lido''"

definition msg_text :: string where
  "msg_text = ''Este campo deve ter pelo menos 2 caracteres''"

definition msg_required :: string where
  "msg_required = ''Este campo '' @ [CHR 0xE9] @ '' obrigat'' @ [CHR 0xF3] @ ''rio''"

text \<open>
  Modelled from the spec: \<^verbatim>\<open>clearFieldError\<close> is called by \<^verbatim>\<open>validateField\<close> and by the
  \<^verbatim>\<open>input\<close> listener, but its body is not in the source file, which ends inside
  \<^verbatim>\<open>showFieldError\<close>. The spec says that it clears a previously shown error: on Valid and
  Untouched any displayed message and the error marking are removed.
\<close>

definition clearFieldError :: "form_field \<Rightarrow> form_field" where
  "clearFieldError field = field\<lparr>error_class := False, error_message := None\<rparr>"

text \<open>
  \<^verbatim>\<open>showFieldError\<close>, as far as the source file has it: the class \<^verbatim>\<open>error\<close> is added, an
  existing \<^verbatim>\<open>.error-message\<close> of the parent is removed and a new one with the message is
  appended.
\<close>

definition showFieldError :: "form_field \<Rightarrow> string \<Rightarrow> form_field" where
  "showFieldError field message = field\<lparr>error_class := True, error_message := Some message\<rparr>"

text \<open>
  The \<^verbatim>\<open>switch\<close> of \<^verbatim>\<open>validateField\<close>: \<open>(isValid, errorMessage)\<close> for a field and its trimmed
  value. A string is truthy when it is not empty.
\<close>

definition field_rule :: "form_field \<Rightarrow> string \<Rightarrow> bool \<times> string" where
  "field_rule field v =
     (if field_type field = ''email'' then
        (if v \<noteq> [] \<and> \<not> regex_test emailRegex v then (False, msg_email) else (True, []))
      else if field_type field = ''text'' then
        (if required field \<and> length v < 2 then (False, msg_text) else (True, []))
      else
        (if required field \<and> v = [] then (False, msg_required) else (True, [])))"

text \<open>\<^verbatim>\<open>validateField\<close> returns \<^verbatim>\<open>isValid\<close>; the field it leaves is the second component.\<close>

definition validateField :: "form_field \<Rightarrow> bool \<times> form_field" where
  "validateField field =
     (let v = trim (field_value field);
          cleared = clearFieldError field;
          (isValid, errorMessage) = field_rule field v
      in (isValid, if \<not> isValid then showFieldError cleared errorMessage else cleared))"

text \<open>
  The two listeners of \<^verbatim>\<open>setupFormValidation\<close>. On \<^verbatim>\<open>input\<close> the browser has already stored
  the new value in the field.
\<close>

definition on_blur :: "form_field \<Rightarrow> form_field" where
  "on_blur field = snd (validateField field)"

definition on_input :: "string \<Rightarrow> form_field \<Rightarrow> form_field" where
  "on_input v field = clearFieldError (field\<lparr>field_value := v\<rparr>)"

text \<open>Whether the page shows an error on the field.\<close>

definition shows_error :: "form_field \<Rightarrow> bool" where
  "shows_error field =
     (case error_message field of None \<Rightarrow> error_class field | Some message \<Rightarrow> True)"

section \<open>Rate limiters\<close>

text \<open>
  Time is the reading of \<^verbatim>\<open>Date.now()\<close>, in milliseconds. A wrapper made by \<^verbatim>\<open>throttle\<close> or
  \<^verbatim>\<open>debounce\<close> is a state machine with two entry points: the wrapper is called, or the
  callback it gave to \<^verbatim>\<open>setTimeout\<close> runs. The handler is abstract; the model records each
  \<^verbatim>\<open>func.apply\<close> with the time and the arguments, and takes the handler to return normally.
  A pending timer is the time it is due at and the arguments its closure captured.

  The browser's \<^verbatim>\<open>setTimeout\<close> takes its delay as a 32-bit signed integer: the number is
  reduced modulo \<open>2^32\<close> into the range from \<open>-2^31\<close> to \<open>2^31 - 1\<close>, and a negative result
  counts as zero.
\<close>

definition to_long :: "int \<Rightarrow> int" where
  "to_long ms = (ms + 2147483648) mod 4294967296 - 2147483648"

definition setTimeout_due :: "int \<Rightarrow> int \<Rightarrow> int" where
  "setTimeout_due now ms = now + max 0 (to_long ms)"

text \<open>
  What the event loop does to a wrapper, one entry per task: the wrapper is called at a
  time with arguments, or the pending timer's callback runs at a time.
\<close>

datatype 'a event = Call int 'a | Timer int


text \<open>
  The lists of events the event loop can produce, for a wrapper given by its pending timer
  and its reaction to an event: the clock never goes back, and a timer callback runs only
  while its timer is pending, and not before the timer is due. Nothing makes it run on
  time, and calls made one after the other in the same task follow each other directly.
\<close>

fun admissible ::
  "('s \<Rightarrow> (int \<times> 'a) option) \<Rightarrow> ('a event \<Rightarrow> 's \<Rightarrow> 's) \<Rightarrow> int \<Rightarrow> 'a event list \<Rightarrow> 's \<Rightarrow> bool"
where
  "admissible pending step now [] st = True"
| "admissible pending step now (Call t args # es) st =
     (now \<le> t \<and> admissible pending step t es (step (Call t args) st))"
| "admissible pending step now (Timer t # es) st =
     (now \<le> t \<and>
      (case pending st of None \<Rightarrow> False | Some (due, args) \<Rightarrow> due \<le> t) \<and>
      admissible pending step t es (step (Timer t) st))"

text \<open>
  Punctual timers: a timer callback runs at the very time its timer is due, and no call
  is made after that time while the timer is still pending.
\<close>

fun punctual ::
  "('s \<Rightarrow> (int \<times> 'a) option) \<Rightarrow> ('a event \<Rightarrow> 's \<Rightarrow> 's) \<Rightarrow> 'a event list \<Rightarrow> 's \<Rightarrow> bool"
where
  "punctual pending step [] st = True"
| "punctual pending step (Call t args # es) st =
     ((case pending st of None \<Rightarrow> True | Some (due, args') \<Rightarrow> t \<le> due) \<and>
      punctual pending step es (step (Call t args) st))"
| "punctual pending step (Timer t # es) st =
     ((case pending st of None \<Rightarrow> False | Some (due, args) \<Rightarrow> t = due) \<and>
      punctual pending step es (step (Timer t) st))"

record 'a throttle_state =
  lastExecTime :: int
  timeoutId :: "(int \<times> 'a) option"
  fired :: "(int \<times> 'a) list"

definition throttle_init :: "'a throttle_state" where
  "throttle_init = \<lparr>lastExecTime = 0, timeoutId = None, fired = []\<rparr>"

text \<open>
  The function \<^verbatim>\<open>throttle\<close> returns, called at \<open>currentTime\<close>. The first branch leaves a
  pending timer alone; the second replaces it.
\<close>

definition throttle_call :: "int \<Rightarrow> int \<Rightarrow> 'a \<Rightarrow> 'a throttle_state \<Rightarrow> 'a throttle_state" where
  "throttle_call delay currentTime args st =
     (if currentTime - lastExecTime st > delay then
        st\<lparr>fired := fired st @ [(currentTime, args)], lastExecTime := currentTime\<rparr>
      else
        st\<lparr>timeoutId :=
             Some (setTimeout_due currentTime (delay - (currentTime - lastExecTime st)), args)\<rparr>)"

text \<open>The timer callback of \<^verbatim>\<open>throttle\<close>, run at \<open>now\<close>.\<close>

definition throttle_timeout :: "int \<Rightarrow> 'a throttle_state \<Rightarrow> 'a throttle_state" where
  "throttle_timeout now st =
     (case timeoutId st of
        None \<Rightarrow> st
      | Some (due, args) \<Rightarrow>
          st\<lparr>fired := fired st @ [(now, args)], lastExecTime := now, timeoutId := None\<rparr>)"

fun throttle_event :: "int \<Rightarrow> 'a event \<Rightarrow> 'a throttle_state \<Rightarrow> 'a throttle_state" where
  "throttle_event delay (Call t args) st = throttle_call delay t args st"
| "throttle_event delay (Timer t) st = throttle_timeout t st"

text \<open>
  A fresh wrapper taken through a list of events: the state it ends in, the handler runs
  \<open>(time, arguments)\<close> it made, whether the event loop can produce the list (the clock
  starts at 0 or later), whether the timers in it are punctual, and whether no timer is
  left pending at its end.
\<close>

definition throttle_exec :: "int \<Rightarrow> 'a event list \<Rightarrow> 'a throttle_state" where
  "throttle_exec delay es = fold (throttle_event delay) es throttle_init"

definition throttle_run :: "int \<Rightarrow> 'a event list \<Rightarrow> (int \<times> 'a) list" where
  "throttle_run delay es = fired (throttle_exec delay es)"

definition throttle_schedule :: "int \<Rightarrow> 'a event list \<Rightarrow> bool" where
  "throttle_schedule delay es = admissible timeoutId (throttle_event delay) 0 es throttle_init"

definition throttle_punctual :: "int \<Rightarrow> 'a event list \<Rightarrow> bool" where
  "throttle_punctual delay es = punctual timeoutId (throttle_event delay) es throttle_init"

definition throttle_settled :: "int \<Rightarrow> 'a event list \<Rightarrow> bool" where
  "throttle_settled delay es = (timeoutId (throttle_exec delay es) = None)"

record 'a debounce_state =
  debounceTimeoutId :: "(int \<times> 'a) option"
  debounceFired :: "(int \<times> 'a) list"

definition debounce_init :: "'a debounce_state" where
  "debounce_init = \<lparr>debounceTimeoutId = None, debounceFired = []\<rparr>"

text \<open>The function \<^verbatim>\<open>debounce\<close> returns: \<^verbatim>\<open>clearTimeout\<close>, then \<^verbatim>\<open>setTimeout\<close>.\<close>

definition debounce_call :: "int \<Rightarrow> int \<Rightarrow> 'a \<Rightarrow> 'a debounce_state \<Rightarrow> 'a debounce_state" where
  "debounce_call delay now args st = st\<lparr>debounceTimeoutId := Some (setTimeout_due now delay, args)\<rparr>"

definition debounce_timeout :: "int \<Rightarrow> 'a debounce_state \<Rightarrow> 'a debounce_state" where
  "debounce_timeout now st =
     (case debounceTimeoutId st of
        None \<Rightarrow> st
      | Some (due, args) \<Rightarrow>
          st\<lparr>debounceFired := debounceFired st @ [(now, args)], debounceTimeoutId := None\<rparr>)"

fun debounce_event :: "int \<Rightarrow> 'a event \<Rightarrow> 'a debounce_state \<Rightarrow> 'a debounce_state" where
  "debounce_event delay (Call t args) st = debounce_call delay t args st"
| "debounce_event delay (Timer t) st = debounce_timeout t st"

definition debounce_exec :: "int \<Rightarrow> 'a event list \<Rightarrow> 'a debounce_state" where
  "debounce_exec delay es = fold (debounce_event delay) es debounce_init"

definition debounce_run :: "int \<Rightarrow> 'a event list \<Rightarrow> (int \<times> 'a) list" where
  "debounce_run delay es = debounceFired (debounce_exec delay es)"

definition debounce_schedule :: "int \<Rightarrow> 'a event list \<Rightarrow> bool" where
  "debounce_schedule delay es =
     admissible debounceTimeoutId (debounce_event delay) 0 es debounce_init"

definition debounce_punctual :: "int \<Rightarrow> 'a event list \<Rightarrow> bool" where
  "debounce_punctual delay es = punctual debounceTimeoutId (debounce_event delay) es debounce_init"

definition debounce_settled :: "int \<Rightarrow> 'a event list \<Rightarrow> bool" where
  "debounce_settled delay es = (debounceTimeoutId (debounce_exec delay es) = None)"








section \<open>Pages and fields used as examples\<close>

text \<open>Two stacked sections \<open>a\<close> and \<open>b\<close>, each 100 high, with a link for each.\<close>

definition two_sections :: app where
  "two_sections =
     \<lparr>scrollY = 0, nav = Some [],
      navLinks = [\<lparr>href = Some ''#a'', active = False\<rparr>, \<lparr>href = Some ''#b'', active = False\<rparr>],
      sections = [\<lparr>offsetTop = 0, offsetHeight = 100, sectionId = Some ''a''\<rparr>,
                  \<lparr>offsetTop = 100, offsetHeight = 100, sectionId = Some ''b''\<rparr>],
      currentSection = Some []\<rparr>"

text \<open>A section \<open>a\<close> of height 300 with a section \<open>b\<close> nested in it at 100.\<close>

definition nested_sections :: app where
  "nested_sections =
     \<lparr>scrollY = 50, nav = Some [],
      navLinks = [\<lparr>href = Some ''#a'', active = False\<rparr>, \<lparr>href = Some ''#b'', active = False\<rparr>],
      sections = [\<lparr>offsetTop = 0, offsetHeight = 300, sectionId = Some ''a''\<rparr>,
                  \<lparr>offsetTop = 100, offsetHeight = 100, sectionId = Some ''b''\<rparr>],
      currentSection = Some []\<rparr>"

text \<open>One section whose \<^verbatim>\<open>id\<close> attribute is the empty string, and its link \<^verbatim>\<open>#\<close>.\<close>

definition empty_id_section :: app where
  "empty_id_section =
     \<lparr>scrollY = 0, nav = Some [],
      navLinks = [\<lparr>href = Some ''#'', active = False\<rparr>],
      sections = [\<lparr>offsetTop = 0, offsetHeight = 100, sectionId = Some []\<rparr>],
      currentSection = Some []\<rparr>"

text \<open>The page \<open>two_sections\<close> with a third link, between the two, that has no \<^verbatim>\<open>href\<close>.\<close>

definition link_without_href :: app where
  "link_without_href =
     two_sections\<lparr>navLinks :=
       [\<lparr>href = Some ''#a'', active = False\<rparr>, \<lparr>href = None, active = False\<rparr>,
        \<lparr>href = Some ''#b'', active = False\<rparr>]\<rparr>"



definition blank_field :: "string \<Rightarrow> bool \<Rightarrow> string \<Rightarrow> form_field" where
  "blank_field ty req v =
     \<lparr>field_type = ty, field_value = v, required = req, error_class = False,
      error_message = None\<rparr>"

section \<open>The tracker: supporting lemmas\<close>

lemma updateNavLinks_each_highlight:
  "list_all has_href links \<Longrightarrow>
   updateNavLinks_each activeId links = (None, highlight activeId links)"
  by (induction links) (auto simp: highlight_def fragment_def has_href_def)

lemma updateNavLinks_highlight:
  "list_all has_href (navLinks st) \<Longrightarrow>
   updateNavLinks activeId st = (None, st\<lparr>navLinks := highlight activeId (navLinks st)\<rparr>)"
  by (simp add: updateNavLinks_def updateNavLinks_each_highlight)

lemma href_highlight:
  "list_all has_href (highlight a links) = list_all has_href links"
  by (induction links) (auto simp: highlight_def has_href_def)

lemma highlight_highlight:
  "highlight a (highlight b links) = highlight a links"
  by (induction links) (auto simp: highlight_def fragment_def)

lemma no_match_unchanged:
  "filter (in_section p) ss = [] \<Longrightarrow> updateActiveNavigation_each p ss st = (None, st)"
  by (induction ss arbitrary: st) (auto split: if_splits)

lemma updateNavbarBackground_frame:
  "currentSection (snd (updateNavbarBackground st)) = currentSection st \<and>
   navLinks (snd (updateNavbarBackground st)) = navLinks st \<and>
   sections (snd (updateNavbarBackground st)) = sections st"
  by (simp add: updateNavbarBackground_def split: option.splits)

text \<open>
  The loop over the sections, when no link lacks an \<^verbatim>\<open>href\<close>: the last section in range
  is current afterwards, and the links are rewritten unless every section in range bears
  the identifier that was current on entry.
\<close>

lemma each_result:
  "list_all has_href (navLinks st) \<Longrightarrow>
   updateActiveNavigation_each p ss st =
     (None, st\<lparr>currentSection :=
                 (if filter (in_section p) ss = [] then currentSection st
                  else sectionId (last (filter (in_section p) ss))),
               navLinks :=
                 (if list_all (\<lambda>m. sectionId m = currentSection st) (filter (in_section p) ss)
                  then navLinks st
                  else highlight (sectionId (last (filter (in_section p) ss))) (navLinks st))\<rparr>)"
proof (induction ss arbitrary: st)
  case Nil
  then show ?case by simp
next
  case (Cons s ss)
  show ?case
  proof (cases "in_section p s \<and> currentSection st \<noteq> sectionId s")
    case False
    then show ?thesis using Cons by auto
  next
    case True
    let ?st1 = "st\<lparr>currentSection := sectionId s, navLinks := highlight (sectionId s) (navLinks st)\<rparr>"
    have h1: "list_all has_href (navLinks ?st1)"
      using Cons.prems by (simp add: href_highlight)
    have step: "updateActiveNavigation_each p (s # ss) st = updateActiveNavigation_each p ss ?st1"
      using True Cons.prems by (simp add: updateNavLinks_highlight)
    have last_id: "list_all (\<lambda>m. sectionId m = sectionId s) (filter (in_section p) ss) \<Longrightarrow>
        filter (in_section p) ss \<noteq> [] \<Longrightarrow> sectionId (last (filter (in_section p) ss)) = sectionId s"
      by (metis (mono_tags, lifting) last_in_set list_all_iff)
    show ?thesis
      unfolding step Cons.IH[OF h1]
      using True last_id by (auto simp: highlight_highlight)
  qed
qed

lemma active_highlight:
  "list_all (\<lambda>l. active l = (fragment l = a)) (highlight a links)"
  by (induction links) (auto simp: highlight_def fragment_def)

lemma shown_filter_active:
  "list_all (\<lambda>l. active l = (fragment l = a)) links \<Longrightarrow>
   filter active links = filter (\<lambda>l. fragment l = a) links"
  by (induction links) auto

lemma length_filter_fragment_highlight:
  "length (filter (\<lambda>l. fragment l = a) (highlight b links)) =
   length (filter (\<lambda>l. fragment l = a) links)"
  by (induction links) (auto simp: highlight_def fragment_def)

lemma filter_singleton:
  "length (filter P xs) = 1 \<Longrightarrow> \<exists>x. filter P xs = [x] \<and> P x"
proof -
  assume a: "length (filter P xs) = 1"
  then obtain x where x: "filter P xs = [x]"
    by (cases "filter P xs") auto
  then have "x \<in> set (filter P xs)" by simp
  then have "P x" by simp
  with x show ?thesis by blast
qed

lemma handleScroll_tracker:
  assumes "list_all has_href (navLinks st)"
  shows "currentSection (snd (handleScroll st)) =
           (if filter (in_section (scrollY st + navOffset)) (sections st) = [] then currentSection st
            else sectionId (last (filter (in_section (scrollY st + navOffset)) (sections st))))"
    and "navLinks (snd (handleScroll st)) =
           (if list_all (\<lambda>m. sectionId m = currentSection st)
                 (filter (in_section (scrollY st + navOffset)) (sections st))
            then navLinks st
            else highlight (sectionId (last (filter (in_section (scrollY st + navOffset)) (sections st))))
                   (navLinks st))"
  using assms
  by (simp_all add: handleScroll_def updateActiveNavigation_def each_result
        updateNavbarBackground_frame)

lemma tracker_inv_initial:
  "tracker_inv (st\<lparr>currentSection := Some []\<rparr>)"
  by (simp add: tracker_inv_def)

lemma tracker_inv_on_scroll:
  assumes "list_all has_href (navLinks st)" and "tracker_inv st"
  shows "tracker_inv (snd (on_scroll y st)) \<and> list_all has_href (navLinks (snd (on_scroll y st)))"
proof -
  let ?st = "st\<lparr>scrollY := y\<rparr>"
  have h: "list_all has_href (navLinks ?st)" using assms(1) by simp
  have i: "tracker_inv ?st" using assms(2) by (simp add: tracker_inv_def)
  let ?ms = "filter (in_section (scrollY ?st + navOffset)) (sections ?st)"
  show ?thesis
  proof (cases "list_all (\<lambda>m. sectionId m = currentSection ?st) ?ms")
    case True
    then have "?ms \<noteq> [] \<Longrightarrow> sectionId (last ?ms) = currentSection ?st"
      by (metis (mono_tags, lifting) last_in_set list_all_iff)
    then have "currentSection (snd (handleScroll ?st)) = currentSection ?st"
      unfolding handleScroll_tracker(1)[OF h] by auto
    moreover have "navLinks (snd (handleScroll ?st)) = navLinks ?st"
      unfolding handleScroll_tracker(2)[OF h] using True by simp
    ultimately show ?thesis
      using i h by (simp add: tracker_inv_def on_scroll_def)
  next
    case False
    then have ne: "?ms \<noteq> []" by auto
    have "navLinks (snd (handleScroll ?st)) = highlight (sectionId (last ?ms)) (navLinks ?st)"
      unfolding handleScroll_tracker(2)[OF h] using False by simp
    moreover have "currentSection (snd (handleScroll ?st)) = sectionId (last ?ms)"
      unfolding handleScroll_tracker(1)[OF h] using ne by simp
    ultimately show ?thesis
      using h by (simp add: tracker_inv_def on_scroll_def active_highlight href_highlight)
  qed
qed

text \<open>An example page and its state after a scroll to 50.\<close>

lemma two_sections_scrolled:
  "on_scroll 50 two_sections =
     (None, two_sections\<lparr>scrollY := 50, nav := Some ''rgba(11, 11, 12, 0.9)'',
        navLinks := [\<lparr>href = Some ''#a'', active = False\<rparr>, \<lparr>href = Some ''#b'', active = True\<rparr>],
        currentSection := Some ''b''\<rparr>)"
  by (simp add: on_scroll_def handleScroll_def updateActiveNavigation_def two_sections_def
      navOffset_def in_section_def updateNavLinks_def updateNavbarBackground_def)

lemma nested_sections_scrolled:
  "handleScroll nested_sections =
     (None, nested_sections\<lparr>nav := Some ''rgba(11, 11, 12, 0.9)'',
        navLinks := [\<lparr>href = Some ''#a'', active = False\<rparr>, \<lparr>href = Some ''#b'', active = True\<rparr>],
        currentSection := Some ''b''\<rparr>)"
  by (simp add: handleScroll_def updateActiveNavigation_def nested_sections_def
      navOffset_def in_section_def updateNavLinks_def updateNavbarBackground_def)

section \<open>The tracker: claims\<close>

text \<open>
  C1, as the spec states it: for every scroll offset inside exactly one section's range,
  the handler leaves exactly one link active, the one of that section, provided every
  section has an id and one link for it.

  The handler tests \<open>scrollY + navOffset\<close>, not the offset: on the page \<open>two_sections\<close> the
  offset 50 lies in section \<open>a\<close> only, each section has its one link, and after the scroll
  event the one active link is that of section \<open>b\<close>.

  Read with the computed position in place of the offset, the statement still fails on two
  pages that meet its precondition. On \<open>empty_id_section\<close> the identifier of the section
  is the value \<^verbatim>\<open>currentSection\<close> starts with, so \<^verbatim>\<open>updateNavLinks\<close> is never called and no
  link is active. On \<open>link_without_href\<close> the handler throws at the link that has no \<^verbatim>\<open>href\<close>,
  before it reaches the link of section \<open>b\<close>, and no link is active.
\<close>

theorem scroll_offset_in_section_counterexample:
  "filter (in_section 50) (sections two_sections) =
     [\<lparr>offsetTop = 0, offsetHeight = 100, sectionId = Some ''a''\<rparr>] \<and>
   map fragment (navLinks two_sections) = [Some ''a'', Some ''b''] \<and>
   filter active (navLinks (snd (on_scroll 50 two_sections))) =
     [\<lparr>href = Some ''#b'', active = True\<rparr>] \<and>
   fragment \<lparr>href = Some ''#b'', active = True\<rparr> \<noteq> Some ''a'' \<and>
   filter (in_section (0 + navOffset)) (sections empty_id_section) =
     [\<lparr>offsetTop = 0, offsetHeight = 100, sectionId = Some []\<rparr>] \<and>
   map fragment (navLinks empty_id_section) = [Some []] \<and>
   on_scroll 0 empty_id_section =
     (None, empty_id_section\<lparr>nav := Some ''rgba(11, 11, 12, 0.9)''\<rparr>) \<and>
   filter active (navLinks (snd (on_scroll 0 empty_id_section))) = [] \<and>
   filter (in_section (50 + navOffset)) (sections link_without_href) =
     [\<lparr>offsetTop = 100, offsetHeight = 100, sectionId = Some ''b''\<rparr>] \<and>
   map fragment (navLinks link_without_href) = [Some ''a'', None, Some ''b''] \<and>
   fst (on_scroll 50 link_without_href) = Some TypeError \<and>
   filter active (navLinks (snd (on_scroll 50 link_without_href))) = []"
proof -
  have first: "filter (in_section 50) (sections two_sections) =
       [\<lparr>offsetTop = 0, offsetHeight = 100, sectionId = Some ''a''\<rparr>] \<and>
     map fragment (navLinks two_sections) = [Some ''a'', Some ''b''] \<and>
     filter active (navLinks (snd (on_scroll 50 two_sections))) =
       [\<lparr>href = Some ''#b'', active = True\<rparr>] \<and>
     fragment \<lparr>href = Some ''#b'', active = True\<rparr> \<noteq> Some ''a''"
    by (simp add: two_sections_scrolled)
      (simp add: two_sections_def in_section_def fragment_def)
  have scrolled: "on_scroll 0 empty_id_section =
      (None, empty_id_section\<lparr>nav := Some ''rgba(11, 11, 12, 0.9)''\<rparr>)"
    by (simp add: on_scroll_def handleScroll_def updateActiveNavigation_def
        empty_id_section_def navOffset_def in_section_def updateNavbarBackground_def)
  have second: "filter (in_section (0 + navOffset)) (sections empty_id_section) =
       [\<lparr>offsetTop = 0, offsetHeight = 100, sectionId = Some []\<rparr>] \<and>
     map fragment (navLinks empty_id_section) = [Some []] \<and>
     filter active (navLinks (snd (on_scroll 0 empty_id_section))) = []"
    unfolding scrolled
    by (simp add: empty_id_section_def navOffset_def in_section_def fragment_def)
  have thrown: "on_scroll 50 link_without_href =
      (Some TypeError, link_without_href\<lparr>scrollY := 50, currentSection := Some ''b''\<rparr>)"
    by (simp add: on_scroll_def handleScroll_def updateActiveNavigation_def
        link_without_href_def two_sections_def navOffset_def in_section_def updateNavLinks_def)
  have third: "filter (in_section (50 + navOffset)) (sections link_without_href) =
       [\<lparr>offsetTop = 100, offsetHeight = 100, sectionId = Some ''b''\<rparr>] \<and>
     map fragment (navLinks link_without_href) = [Some ''a'', None, Some ''b''] \<and>
     fst (on_scroll 50 link_without_href) = Some TypeError \<and>
     filter active (navLinks (snd (on_scroll 50 link_without_href))) = []"
    unfolding thrown
    by (simp add: link_without_href_def two_sections_def navOffset_def in_section_def
        fragment_def)
  from first scrolled second third show ?thesis by blast
qed

text \<open>
  C1, amended. Let every navigation link have an \<^verbatim>\<open>href\<close>, and let the page be in a state
  it can reach (\<open>tracker_inv\<close>). For every scroll offset \<open>y\<close> whose computed position
  \<open>y + navOffset\<close> lies in the range of exactly one section, if that section has a
  non-empty identifier \<open>i\<close> and exactly one link has the fragment \<open>i\<close>, then after the scroll
  handler \<^verbatim>\<open>currentSection\<close> is \<open>i\<close> and exactly one link is active, and its fragment is \<open>i\<close>.
\<close>

theorem one_link_active_for_position:
  assumes "list_all has_href (navLinks st)"
    and "tracker_inv st"
    and "filter (in_section (y + navOffset)) (sections st) = [s]"
    and "sectionId s = Some i"
    and "i \<noteq> []"
    and "length (filter (\<lambda>l. fragment l = Some i) (navLinks st)) = 1"
  shows "currentSection (snd (on_scroll y st)) = Some i \<and>
         (\<exists>l. filter active (navLinks (snd (on_scroll y st))) = [l] \<and> fragment l = Some i)"
proof -
  let ?st = "st\<lparr>scrollY := y\<rparr>"
  have h: "list_all has_href (navLinks ?st)" using assms(1) by simp
  have ms: "filter (in_section (scrollY ?st + navOffset)) (sections ?st) = [s]"
    using assms(3) by simp
  have cur: "currentSection (snd (on_scroll y st)) = Some i"
    unfolding on_scroll_def handleScroll_tracker(1)[OF h] ms using assms(4) by simp
  have links: "navLinks (snd (on_scroll y st)) =
      (if Some i = currentSection st then navLinks st else highlight (Some i) (navLinks st))"
    unfolding on_scroll_def handleScroll_tracker(2)[OF h] ms using assms(4) by simp
  have shown: "list_all (\<lambda>l. active l = (fragment l = Some i)) (navLinks (snd (on_scroll y st)))"
  proof (cases "Some i = currentSection st")
    case True
    with assms(2,5) links show ?thesis by (auto simp: tracker_inv_def)
  next
    case False
    with links show ?thesis by (simp add: active_highlight)
  qed
  have "length (filter (\<lambda>l. fragment l = Some i) (navLinks (snd (on_scroll y st)))) = 1"
    using assms(6) unfolding links by (cases "Some i = currentSection st")
      (simp_all add: length_filter_fragment_highlight)
  then obtain l where "filter (\<lambda>l. fragment l = Some i) (navLinks (snd (on_scroll y st))) = [l]"
    and "fragment l = Some i"
    using filter_singleton by blast
  with shown_filter_active[OF shown] cur show ?thesis by simp
qed

theorem one_link_active_for_position_witness:
  "list_all has_href (navLinks two_sections) \<and> tracker_inv two_sections \<and>
   filter (in_section (50 + navOffset)) (sections two_sections) =
     [\<lparr>offsetTop = 100, offsetHeight = 100, sectionId = Some ''b''\<rparr>] \<and>
   length (filter (\<lambda>l. fragment l = Some ''b'') (navLinks two_sections)) = 1 \<and>
   currentSection (snd (on_scroll 50 two_sections)) = Some ''b'' \<and>
   (\<exists>l. filter active (navLinks (snd (on_scroll 50 two_sections))) = [l] \<and>
        fragment l = Some ''b'')"
proof -
  let ?b = "\<lparr>offsetTop = 100, offsetHeight = 100, sectionId = Some ''b''\<rparr>"
  have h1: "list_all has_href (navLinks two_sections)"
    by (simp add: two_sections_def has_href_def)
  have h2: "tracker_inv two_sections"
    by (simp add: two_sections_def tracker_inv_def)
  have h3: "filter (in_section (50 + navOffset)) (sections two_sections) = [?b]"
    by (simp add: two_sections_def in_section_def navOffset_def)
  have h4: "sectionId ?b = Some ''b''" by simp
  have h5: "''b'' \<noteq> []" by simp
  have h6: "length (filter (\<lambda>l. fragment l = Some ''b'') (navLinks two_sections)) = 1"
    by (simp add: two_sections_def fragment_def)
  from one_link_active_for_position[OF h1 h2 h3 h4 h5 h6] h1 h2 h3 h6
  show ?thesis by blast
qed

text \<open>
  The invariant used in C1 holds when the application object is constructed and after
  every scroll event, as long as every link has an \<^verbatim>\<open>href\<close>: see \<open>tracker_inv_initial\<close> and
  \<open>tracker_inv_on_scroll\<close>.
\<close>

text \<open>
  C2, as the spec states it: with the position in several sections, the first of them in
  document order becomes current. On \<open>nested_sections\<close> the position 130 lies in section
  \<open>a\<close> and in section \<open>b\<close> nested in it, in this order; after the handler the current
  section is \<open>b\<close>, and the link of \<open>b\<close> is the active one.
\<close>

theorem first_matching_section_counterexample:
  "filter (in_section (scrollY nested_sections + navOffset)) (sections nested_sections) =
     [\<lparr>offsetTop = 0, offsetHeight = 300, sectionId = Some ''a''\<rparr>,
      \<lparr>offsetTop = 100, offsetHeight = 100, sectionId = Some ''b''\<rparr>] \<and>
   currentSection (snd (handleScroll nested_sections)) = Some ''b'' \<and>
   navLinks (snd (handleScroll nested_sections)) =
     [\<lparr>href = Some ''#a'', active = False\<rparr>, \<lparr>href = Some ''#b'', active = True\<rparr>]"
  by (simp add: nested_sections_scrolled)
    (simp add: nested_sections_def in_section_def navOffset_def)

text \<open>
  C2, amended. Let every navigation link have an \<^verbatim>\<open>href\<close>. On a scroll event, when the
  computed position lies in the range of one or more sections, the section that is current
  afterwards is the last such section in document order. If some section in range bears an
  identifier other than the one current on entry, every link's active flag is rewritten:
  true on the links whose fragment is the new current identifier, false on all others.
\<close>

theorem last_matching_section_becomes_current:
  assumes "list_all has_href (navLinks st)"
    and "filter (in_section (scrollY st + navOffset)) (sections st) \<noteq> []"
  shows "currentSection (snd (handleScroll st)) =
           sectionId (last (filter (in_section (scrollY st + navOffset)) (sections st))) \<and>
         (\<not> list_all (\<lambda>m. sectionId m = currentSection st)
               (filter (in_section (scrollY st + navOffset)) (sections st)) \<longrightarrow>
          navLinks (snd (handleScroll st)) =
            highlight (sectionId (last (filter (in_section (scrollY st + navOffset)) (sections st))))
              (navLinks st) \<and>
          list_all (\<lambda>l. active l =
                (fragment l = sectionId (last (filter (in_section (scrollY st + navOffset)) (sections st)))))
            (navLinks (snd (handleScroll st))))"
  using assms
  by (simp add: handleScroll_tracker active_highlight)

theorem last_matching_section_becomes_current_witness:
  "list_all has_href (navLinks nested_sections) \<and>
   filter (in_section (scrollY nested_sections + navOffset)) (sections nested_sections) \<noteq> [] \<and>
   \<not> list_all (\<lambda>m. sectionId m = currentSection nested_sections)
        (filter (in_section (scrollY nested_sections + navOffset)) (sections nested_sections)) \<and>
   currentSection (snd (handleScroll nested_sections)) = Some ''b'' \<and>
   navLinks (snd (handleScroll nested_sections)) =
     highlight (Some ''b'') (navLinks nested_sections)"
proof -
  have h1: "list_all has_href (navLinks nested_sections)"
    by (simp add: nested_sections_def has_href_def)
  have ms: "filter (in_section (scrollY nested_sections + navOffset)) (sections nested_sections) =
     [\<lparr>offsetTop = 0, offsetHeight = 300, sectionId = Some ''a''\<rparr>,
      \<lparr>offsetTop = 100, offsetHeight = 100, sectionId = Some ''b''\<rparr>]"
    by (simp add: nested_sections_def in_section_def navOffset_def)
  have h2: "filter (in_section (scrollY nested_sections + navOffset)) (sections nested_sections) \<noteq> []"
    by (simp add: ms)
  have h3: "\<not> list_all (\<lambda>m. sectionId m = currentSection nested_sections)
        (filter (in_section (scrollY nested_sections + navOffset)) (sections nested_sections))"
    unfolding ms by (simp add: nested_sections_def)
  from last_matching_section_becomes_current[OF h1 h2] h1 h2 h3
  show ?thesis by (simp add: ms)
qed

text \<open>
  C5. When the scroll handler runs and no section's range contains the computed position
  (\<open>scrollY + navOffset\<close>), the tracker state is left as it was: \<^verbatim>\<open>updateActiveNavigation\<close>
  returns normally with the state untouched, and after the whole handler
  \<^verbatim>\<open>currentSection\<close> and every link's active flag have their previous values.
\<close>

theorem no_section_matches_state_unchanged:
  assumes "filter (in_section (scrollY st + navOffset)) (sections st) = []"
  shows "updateActiveNavigation st = (None, st) \<and>
         currentSection (snd (handleScroll st)) = currentSection st \<and>
         navLinks (snd (handleScroll st)) = navLinks st"
proof -
  have u: "updateActiveNavigation st = (None, st)"
    using assms by (simp add: updateActiveNavigation_def no_match_unchanged)
  then have "handleScroll st = updateNavbarBackground st"
    by (simp add: handleScroll_def)
  with u show ?thesis
    by (simp add: updateNavbarBackground_frame)
qed

theorem no_section_matches_state_unchanged_witness:
  "filter (in_section (scrollY (two_sections\<lparr>scrollY := 500\<rparr>) + navOffset))
     (sections (two_sections\<lparr>scrollY := 500\<rparr>)) = [] \<and>
   updateActiveNavigation (two_sections\<lparr>scrollY := 500\<rparr>) = (None, two_sections\<lparr>scrollY := 500\<rparr>) \<and>
   currentSection (snd (handleScroll (two_sections\<lparr>scrollY := 500\<rparr>))) = Some [] \<and>
   navLinks (snd (handleScroll (two_sections\<lparr>scrollY := 500\<rparr>))) = navLinks two_sections"
proof -
  have h: "filter (in_section (scrollY (two_sections\<lparr>scrollY := 500\<rparr>) + navOffset))
     (sections (two_sections\<lparr>scrollY := 500\<rparr>)) = []"
    by (simp add: two_sections_def in_section_def navOffset_def)
  from no_section_matches_state_unchanged[OF h] h
  show ?thesis by (simp add: two_sections_def)
qed

text \<open>
  C6. The spec says that no operation raises an exception and that an absent element makes
  the operation a no-op. \<^verbatim>\<open>updateNavbarBackground\<close> has no such guard: on a page without an
  element \<^verbatim>\<open>nav\<close> the scroll handler throws a \<^verbatim>\<open>TypeError\<close>.
\<close>

theorem handleScroll_without_nav_throws:
  "fst (handleScroll (two_sections\<lparr>nav := None\<rparr>)) = Some TypeError"
  by (simp add: handleScroll_def updateActiveNavigation_def two_sections_def
      navOffset_def in_section_def updateNavLinks_def updateNavbarBackground_def)

section \<open>The validator: supporting lemmas\<close>

lemmas validator_defs = validateField_def field_rule_def on_blur_def on_input_def shows_error_def
  clearFieldError_def showFieldError_def blank_field_def trim_def js_whitespace_def
  emailRegex_def one_or_more_def not_space_at_def

text \<open>Stripping the end of a string leaves its first character in place.\<close>

lemma trim_keeps_front:
  "xs = [] \<or> \<not> P (hd xs) \<Longrightarrow>
   dropWhile P (rev (dropWhile P (rev xs))) = rev (dropWhile P (rev xs))"
  by (metis (no_types, lifting) dropWhile_eq_Nil_conv dropWhile_eq_self_iff
    dropWhile_last last_rev rev.simps(1) rev_rev_ident)

lemma trim_trim: "trim (trim s) = trim s"
proof -
  let ?t = "dropWhile js_whitespace s"
  let ?u = "rev (dropWhile js_whitespace (rev ?t))"
  have "?t = [] \<or> \<not> js_whitespace (hd ?t)"
    using hd_dropWhile by blast
  then have front: "dropWhile js_whitespace ?u = ?u"
    by (rule trim_keeps_front)
  have "trim ?u = rev (dropWhile js_whitespace (rev ?u))"
    unfolding trim_def front ..
  also have "\<dots> = ?u"
    by simp
  finally show ?thesis
    by (simp add: trim_def)
qed

text \<open>What a blur leaves on the field is decided by the rule on the trimmed value alone.\<close>

lemma blur_verdict:
  "fst (validateField f) = fst (field_rule f (trim (field_value f))) \<and>
   shows_error (on_blur f) = (\<not> fst (field_rule f (trim (field_value f)))) \<and>
   error_class (on_blur f) = (\<not> fst (field_rule f (trim (field_value f)))) \<and>
   error_message (on_blur f) =
     (if fst (field_rule f (trim (field_value f))) then None
      else Some (snd (field_rule f (trim (field_value f)))))"
  by (cases "field_rule f (trim (field_value f))")
    (simp add: validateField_def on_blur_def shows_error_def clearFieldError_def
      showFieldError_def Let_def)

lemma field_rule_value:
  "field_rule (f\<lparr>field_value := v\<rparr>) w = field_rule f w"
  by (simp add: field_rule_def)

text \<open>The rule for an email field as the code has it: \<^verbatim>\<open>required\<close> is not consulted.\<close>

lemma email_rule:
  "field_type f = ''email'' \<Longrightarrow>
   shows_error (on_blur f) =
     (trim (field_value f) \<noteq> [] \<and> \<not> regex_test emailRegex (trim (field_value f)))"
  by (simp add: blur_verdict field_rule_def)

lemma email_examples:
  "\<not> shows_error (on_blur (blank_field ''email'' req ''a@b.co'')) \<and>
   shows_error (on_blur (blank_field ''email'' req ''a@b'')) \<and>
   \<not> shows_error (on_blur (blank_field ''email'' False []))"
  by (simp add: validator_defs)

section \<open>The validator: claims\<close>

text \<open>
  C4. The spec says that a blur on an email field shows an error when the value is empty
  and the field is required. The \<^verbatim>\<open>email\<close> case of \<^verbatim>\<open>validateField\<close> tests the pattern on a
  non-empty value and nothing else, where the \<^verbatim>\<open>text\<close> and default cases test \<^verbatim>\<open>required\<close>:
  a required email field left empty is reported valid and no error is shown.
\<close>

theorem required_empty_email_passes:
  "validateField (blank_field ''email'' True []) = (True, blank_field ''email'' True []) \<and>
   \<not> shows_error (on_blur (blank_field ''email'' True []))"
  by (simp add: validator_defs)

text \<open>
  C7. For every form field, whatever it displays, an \<^verbatim>\<open>input\<close> event leaves the field with
  no displayed error, whatever the new value is; so it does after a blur. In particular
  a blur on an email field holding \<^verbatim>\<open>a@b\<close> shows an error, and the next input event, to a
  value that is still bad, removes it.
\<close>

theorem input_clears_displayed_error:
  "\<not> shows_error (on_input v f) \<and>
   error_message (on_input v f) = None \<and>
   field_value (on_input v f) = v \<and>
   \<not> shows_error (on_input v (on_blur f)) \<and>
   shows_error (on_blur (blank_field ''email'' False ''a@b'')) \<and>
   \<not> shows_error (on_input ''a@'' (on_blur (blank_field ''email'' False ''a@b'')))"
proof -
  have "shows_error (on_blur (blank_field ''email'' False ''a@b''))"
    by (simp add: validator_defs)
  then show ?thesis
    by (simp add: on_input_def clearFieldError_def shows_error_def)
qed

text \<open>
  C8. A blur on a required field of type \<^verbatim>\<open>text\<close> shows an error exactly when the trimmed
  value is shorter than 2, so \<^verbatim>\<open>" a "\<close> is invalid and \<^verbatim>\<open>"ab"\<close> is valid; a blur on a required
  field of any type other than \<^verbatim>\<open>text\<close> and \<^verbatim>\<open>email\<close> shows an error exactly when the trimmed
  value is empty. The value \<^verbatim>\<open>validateField\<close> returns is the negation of the error shown.
\<close>

theorem required_field_rules:
  "(required f \<and> field_type f = ''text'' \<longrightarrow>
      shows_error (on_blur f) = (length (trim (field_value f)) < 2) \<and>
      fst (validateField f) = (\<not> length (trim (field_value f)) < 2)) \<and>
   (required f \<and> field_type f \<noteq> ''text'' \<and> field_type f \<noteq> ''email'' \<longrightarrow>
      shows_error (on_blur f) = (trim (field_value f) = []) \<and>
      fst (validateField f) = (trim (field_value f) \<noteq> [])) \<and>
   shows_error (on_blur (blank_field ''text'' True '' a '')) \<and>
   \<not> shows_error (on_blur (blank_field ''text'' True ''ab''))"
proof -
  have "shows_error (on_blur (blank_field ''text'' True '' a ''))"
    by (simp add: validator_defs)
  moreover have "\<not> shows_error (on_blur (blank_field ''text'' True ''ab''))"
    by (simp add: validator_defs)
  ultimately show ?thesis
    by (simp add: blur_verdict field_rule_def)
qed

theorem required_field_rules_witness:
  "required (blank_field ''text'' True ''  x '') \<and>
   field_type (blank_field ''text'' True ''  x '') = ''text'' \<and>
   length (trim ''  x '') < 2 \<and>
   shows_error (on_blur (blank_field ''text'' True ''  x '')) \<and>
   required (blank_field ''textarea'' True ''hi'') \<and>
   field_type (blank_field ''textarea'' True ''hi'') \<noteq> ''text'' \<and>
   field_type (blank_field ''textarea'' True ''hi'') \<noteq> ''email'' \<and>
   trim ''hi'' \<noteq> [] \<and>
   \<not> shows_error (on_blur (blank_field ''textarea'' True ''hi''))"
proof -
  have a: "required (blank_field ''text'' True ''  x '') \<and>
           field_type (blank_field ''text'' True ''  x '') = ''text''"
    by (simp add: blank_field_def)
  have b: "required (blank_field ''textarea'' True ''hi'') \<and>
           field_type (blank_field ''textarea'' True ''hi'') \<noteq> ''text'' \<and>
           field_type (blank_field ''textarea'' True ''hi'') \<noteq> ''email''"
    by (simp add: blank_field_def)
  have c: "length (trim ''  x '') < 2" and d: "trim ''hi'' \<noteq> []"
    by (simp_all add: trim_def js_whitespace_def)
  have v: "field_value (blank_field ''text'' True ''  x '') = ''  x ''"
    "field_value (blank_field ''textarea'' True ''hi'') = ''hi''"
    by (simp_all add: blank_field_def)
  from required_field_rules[of "blank_field ''text'' True ''  x ''"] a c
  have "shows_error (on_blur (blank_field ''text'' True ''  x ''))"
    unfolding v by blast
  moreover from required_field_rules[of "blank_field ''textarea'' True ''hi''"] b d
  have "\<not> shows_error (on_blur (blank_field ''textarea'' True ''hi''))"
    unfolding v by blast
  ultimately show ?thesis
    using a b c d by blast
qed

text \<open>
  C10. Validation does not see leading or trailing whitespace: for every field and every
  value \<open>v\<close>, a blur with the value \<open>trim v\<close> gives the same verdict, the same message and
  the same error marking as a blur with \<open>v\<close>. For example \<^verbatim>\<open>" a@b.co "\<close> is valid on an email
  field.
\<close>

theorem validation_ignores_outer_whitespace:
  "fst (validateField (f\<lparr>field_value := trim v\<rparr>)) = fst (validateField (f\<lparr>field_value := v\<rparr>)) \<and>
   error_message (on_blur (f\<lparr>field_value := trim v\<rparr>)) =
     error_message (on_blur (f\<lparr>field_value := v\<rparr>)) \<and>
   error_class (on_blur (f\<lparr>field_value := trim v\<rparr>)) =
     error_class (on_blur (f\<lparr>field_value := v\<rparr>)) \<and>
   fst (validateField (blank_field ''email'' req '' a@b.co '')) \<and>
   \<not> shows_error (on_blur (blank_field ''email'' req '' a@b.co ''))"
proof -
  have "fst (validateField (blank_field ''email'' req '' a@b.co ''))"
    by (simp add: validator_defs)
  moreover have "\<not> shows_error (on_blur (blank_field ''email'' req '' a@b.co ''))"
    by (simp add: validator_defs)
  ultimately show ?thesis
    by (simp add: blur_verdict field_rule_value trim_trim)
qed

section \<open>The rate limiters: supporting lemmas\<close>


lemmas throttle_defs = throttle_run_def throttle_exec_def throttle_schedule_def
  throttle_punctual_def throttle_settled_def throttle_init_def throttle_call_def
  throttle_timeout_def setTimeout_due_def to_long_def

lemmas debounce_defs = debounce_run_def debounce_exec_def debounce_schedule_def
  debounce_punctual_def debounce_settled_def debounce_init_def debounce_call_def
  debounce_timeout_def setTimeout_due_def to_long_def

text \<open>
  Two calls made one after the other in the same millisecond, the first of them at the end
  of the window: the second call replaces the timer of the first, and the handler runs once
  more, with the second call's arguments. So for \<^verbatim>\<open>debounce\<close> with a delay of 0.
\<close>

lemma same_millisecond_calls:
  "throttle_schedule 50 [Call 1000 (1::nat), Call 1050 2, Call 1050 3, Timer 1050] \<and>
   throttle_punctual 50 [Call 1000 (1::nat), Call 1050 2, Call 1050 3, Timer 1050] \<and>
   throttle_run 50 [Call 1000 (1::nat), Call 1050 2, Call 1050 3, Timer 1050] =
     [(1000, 1), (1050, 3)] \<and>
   debounce_schedule 0 [Call 10 (1::nat), Call 10 2, Timer 10] \<and>
   debounce_punctual 0 [Call 10 (1::nat), Call 10 2, Timer 10] \<and>
   debounce_run 0 [Call 10 (1::nat), Call 10 2, Timer 10] = [(10, 2)]"
  by (simp add: throttle_defs debounce_defs)





























section \<open>The rate limiters: claims\<close>







end
